theory Spec2Isabelle
  imports Complex_Main "HOL-Library.Word"
begin

section \<open>Python values used by gif2Asci.py\<close>

text \<open>
  A Python \<open>str\<close> is a sequence of Unicode code points; two of the three built-in
  gradients are not ASCII, so a string is a list of code points, not of bytes.
  ASCII literals of the source are written with \<open>lit\<close>.

  Python \<open>int\<close> is unbounded: \<open>int\<close>. Python \<open>float\<close> values (\<open>tileWidth\<close>,
  \<open>tileHeight\<close>, \<open>scale\<close> and the operand of \<open>round\<close>) are modelled as exact
  rationals: \<open>/\<close> is exact division, \<open>int(x)\<close> truncates toward zero and
  \<open>round(x)\<close> rounds to the nearest integer, ties to even. The concrete inputs
  evaluated below only involve dyadic values, which binary floating point holds exactly.
\<close>

type_synonym pystr = "nat list"

definition lit :: "string \<Rightarrow> pystr" where
  "lit s = map of_char s"

datatype error =
    ZeroDivisionError
  | ValueError
  | IndexError
  | SourceDecodeFailure
  | SystemExit pystr  \<comment> \<open>\<open>print(msg); exit(1)\<close>: the diagnostic printed, then exit status 1\<close>

text \<open>\<open>str(n)\<close> for an integer: decimal digits, with a minus sign when negative.\<close>

fun str_nat :: "nat \<Rightarrow> pystr" where
  "str_nat n = (if n < 10 then [48 + n] else str_nat (n div 10) @ [48 + n mod 10])"

declare str_nat.simps [simp del]

definition str_int :: "int \<Rightarrow> pystr" where
  "str_int i = (if i < 0 then 45 # str_nat (nat (- i)) else str_nat (nat i))"

text \<open>\<open>int(x)\<close> on a float truncates toward zero.\<close>

definition py_int :: "rat \<Rightarrow> int" where
  "py_int x = (if 0 \<le> x then \<lfloor>x\<rfloor> else \<lceil>x\<rceil>)"

text \<open>\<open>round(x)\<close> on a float: nearest integer, a tie goes to the even neighbour.\<close>

definition py_round :: "rat \<Rightarrow> int" where
  "py_round x =
     (let f = \<lfloor>x\<rfloor>; d = x - of_int f
      in if d < 1 / 2 then f
         else if 1 / 2 < d then f + 1
         else if even f then f else f + 1)"

text \<open>\<open>a / b\<close> raises on a zero divisor, for floats as well as for integers.\<close>

definition py_truediv :: "rat \<Rightarrow> rat \<Rightarrow> error + rat" where
  "py_truediv a b = (if b = 0 then Inl ZeroDivisionError else Inr (a / b))"

definition py_floordiv :: "int \<Rightarrow> int \<Rightarrow> error + int" where
  "py_floordiv a b = (if b = 0 then Inl ZeroDivisionError else Inr (a div b))"

text \<open>\<open>s[i]\<close>: a negative index counts from the end, anything out of range raises.\<close>

definition py_getitem :: "'a list \<Rightarrow> int \<Rightarrow> error + 'a" where
  "py_getitem s i =
     (if 0 \<le> i \<and> i < int (length s) then Inr (s ! nat i)
      else if i < 0 \<and> - int (length s) \<le> i then Inr (s ! nat (int (length s) + i))
      else Inl IndexError)"

section \<open>Frames\<close>

text \<open>
  A frame in mode \<open>L\<close> (what \<open>ProcessGif\<close> hands to \<open>ProcessFrame\<close>): its size and
  one 8-bit intensity per pixel. \<open>getpixel img x y\<close> is only read inside the image.
\<close>

record image =
  size_w :: int
  size_h :: int
  getpixel :: "int \<Rightarrow> int \<Rightarrow> 8 word"

text \<open>
  \<open>Image.crop((x1, y1, x2, y2))\<close>: the region of that box, of size
  \<open>(x2 - x1, y2 - y1)\<close>; pixels of the box outside the image are 0. A box whose right
  edge is left of its left edge (or lower above upper) raises \<open>ValueError\<close>.
\<close>

definition crop :: "image \<Rightarrow> int \<times> int \<times> int \<times> int \<Rightarrow> error + image" where
  "crop img box =
     (case box of (x1, y1, x2, y2) \<Rightarrow>
        if x2 < x1 \<or> y2 < y1 then Inl ValueError
        else Inr \<lparr> size_w = x2 - x1, size_h = y2 - y1,
                   getpixel = (\<lambda>x y.
                     if 0 \<le> x1 + x \<and> x1 + x < size_w img \<and> 0 \<le> y1 + y \<and> y1 + y < size_h img
                     then getpixel img (x1 + x) (y1 + y) else 0) \<rparr>)"

text \<open>\<open>list(img.getdata())\<close>: the pixels row by row.\<close>

definition getdata :: "image \<Rightarrow> int list" where
  "getdata img =
     concat (map (\<lambda>y. map (\<lambda>x. uint (getpixel img (int x) (int y))) [0..<nat (size_w img)])
                 [0..<nat (size_h img)])"

text \<open>\<open>tile.convert('L')\<close> leaves a frame that is already in mode \<open>L\<close> as it is.\<close>

definition GetAverageBrightness :: "image \<Rightarrow> error + int" where
  "GetAverageBrightness tile =
     (let pixels = getdata tile
      in py_floordiv (sum_list pixels) (int (length pixels)))"

section \<open>Grid geometry\<close>

text \<open>
  \<open>GetFrameData\<close> (the three diagnostic prints of the computed sizes are not part of
  the model). The quotients are computed before the check, so a zero divisor raises first.
\<close>

definition TooSmall :: error where
  "TooSmall = SystemExit (lit ''Image is too small to process.'')"

definition GetFrameData :: "image \<Rightarrow> int \<Rightarrow> rat \<Rightarrow> error + int \<times> int \<times> rat \<times> rat \<times> int" where
  "GetFrameData frame width scale =
     (let imgWidth = size_w frame; imgHeight = size_h frame
      in case py_truediv (of_int imgWidth) (of_int width) of Inl e \<Rightarrow> Inl e
         | Inr tileWidth \<Rightarrow>
       (case py_truediv tileWidth scale of Inl e \<Rightarrow> Inl e
         | Inr tileHeight \<Rightarrow>
       (case py_truediv (of_int imgHeight) tileHeight of Inl e \<Rightarrow> Inl e
         | Inr q \<Rightarrow>
          let height = py_int q
          in if imgWidth < width \<or> height < 1 then Inl TooSmall
             else Inr (imgWidth, imgHeight, tileWidth, tileHeight, height))))"

section \<open>Rendering a frame\<close>

text \<open>
  \<open>for i in range(0, n): body\<close> over a loop state, stopping at the first exception.
\<close>

fun for_loop :: "('s \<Rightarrow> nat \<Rightarrow> error + 's) \<Rightarrow> nat list \<Rightarrow> 's \<Rightarrow> error + 's" where
  "for_loop body [] s = Inr s"
| "for_loop body (i # is) s =
     (case body s i of Inl e \<Rightarrow> Inl e | Inr s' \<Rightarrow> for_loop body is s')"

text \<open>
  The values a function returns over a list, up to the first exception: what a loop
  that appends one result per iteration builds.
\<close>

fun collect :: "('a \<Rightarrow> error + 'b) \<Rightarrow> 'a list \<Rightarrow> error + 'b list" where
  "collect f [] = Inr []"
| "collect f (x # xs) =
     (case f x of Inl e \<Rightarrow> Inl e
      | Inr v \<Rightarrow> (case collect f xs of Inl e \<Rightarrow> Inl e | Inr vs \<Rightarrow> Inr (v # vs)))"

definition range0 :: "int \<Rightarrow> nat list" where
  "range0 n = [0..<nat n]"

text \<open>
  The pixel bounds of the \<open>i\<close>-th tile along one axis (lines 111 to 116 for the rows,
  121 to 126 for the columns): \<open>int(i * tileSize)\<close> and \<open>int((i + 1) * tileSize)\<close>,
  the upper bound of the last tile replaced by the size of the image.
\<close>

definition lower :: "rat \<Rightarrow> nat \<Rightarrow> int" where
  "lower tileSize i = py_int (of_nat i * tileSize)"

definition upper :: "rat \<Rightarrow> int \<Rightarrow> int \<Rightarrow> nat \<Rightarrow> int" where
  "upper tileSize count imgSize i =
     (let b = py_int ((of_nat i + 1) * tileSize)
      in if int i = count - 1 then imgSize else b)"

text \<open>Lines 134 to 138: the glyph of a brightness, \<open>GRAYSCALE_CHARS\<close> being a global.\<close>

definition asciiChar :: "pystr \<Rightarrow> bool \<Rightarrow> int \<Rightarrow> error + nat" where
  "asciiChar GRAYSCALE_CHARS inverse' avgBrightness =
     (if inverse'
      then py_getitem GRAYSCALE_CHARS
             (py_round ((1 - of_int avgBrightness / 255) * of_int (int (length GRAYSCALE_CHARS) - 1)))
      else py_getitem GRAYSCALE_CHARS
             (py_round ((of_int avgBrightness / 255) * of_int (int (length GRAYSCALE_CHARS) - 1))))"


text \<open>Lines 129 to 138: crop the tile, average it, pick the glyph.\<close>

definition tile_char :: "pystr \<Rightarrow> image \<Rightarrow> bool \<Rightarrow> int \<times> int \<times> int \<times> int \<Rightarrow> error + nat" where
  "tile_char GRAYSCALE_CHARS frame inverse' box =
     (case crop frame box of Inl e \<Rightarrow> Inl e
      | Inr tile \<Rightarrow>
     (case GetAverageBrightness tile of Inl e \<Rightarrow> Inl e
      | Inr avgBrightness \<Rightarrow> asciiChar GRAYSCALE_CHARS inverse' avgBrightness))"

text \<open>\<open>aImg[y] += asciiChar\<close>\<close>

definition append_char :: "pystr list \<Rightarrow> nat \<Rightarrow> nat \<Rightarrow> error + pystr list" where
  "append_char aImg y c =
     (if y < length aImg then Inr (aImg[y := aImg ! y @ [c]]) else Inl IndexError)"

definition column_body ::
  "pystr \<Rightarrow> image \<Rightarrow> int \<Rightarrow> rat \<Rightarrow> int \<Rightarrow> bool \<Rightarrow> nat \<Rightarrow> int \<Rightarrow> int
     \<Rightarrow> pystr list \<Rightarrow> nat \<Rightarrow> error + pystr list" where
  "column_body GRAYSCALE_CHARS frame imgWidth tileWidth width inverse' y y1 y2 aImg x =
     (let x1 = lower tileWidth x;
          x2 = upper tileWidth width imgWidth x
      in case tile_char GRAYSCALE_CHARS frame inverse' (x1, y1, x2, y2) of Inl e \<Rightarrow> Inl e
         | Inr c \<Rightarrow> append_char aImg y c)"

definition row_body ::
  "pystr \<Rightarrow> image \<Rightarrow> int \<Rightarrow> int \<Rightarrow> rat \<Rightarrow> rat \<Rightarrow> int \<Rightarrow> int \<Rightarrow> bool
     \<Rightarrow> pystr list \<Rightarrow> nat \<Rightarrow> error + pystr list" where
  "row_body GRAYSCALE_CHARS frame imgWidth imgHeight tileWidth tileHeight width height inverse' aImg y =
     (let y1 = lower tileHeight y;
          y2 = upper tileHeight height imgHeight y;
          aImg = aImg @ [[]]
      in for_loop (column_body GRAYSCALE_CHARS frame imgWidth tileWidth width inverse' y y1 y2)
           (range0 width) aImg)"

definition ProcessFrame ::
  "pystr \<Rightarrow> image \<Rightarrow> int \<Rightarrow> int \<Rightarrow> rat \<Rightarrow> rat \<Rightarrow> int \<Rightarrow> int \<Rightarrow> bool \<Rightarrow> error + pystr list" where
  "ProcessFrame GRAYSCALE_CHARS frame imgWidth imgHeight tileWidth tileHeight width height inverse' =
     for_loop (row_body GRAYSCALE_CHARS frame imgWidth imgHeight tileWidth tileHeight width height inverse')
       (range0 height) []"

text \<open>The glyphs of row \<open>y\<close>, tile by tile: what the inner loop appends to \<open>aImg[y]\<close>.\<close>

definition render_row ::
  "pystr \<Rightarrow> image \<Rightarrow> int \<Rightarrow> int \<Rightarrow> rat \<Rightarrow> rat \<Rightarrow> int \<Rightarrow> int \<Rightarrow> bool \<Rightarrow> nat
     \<Rightarrow> error + pystr" where
  "render_row G frame W H tw th w h iv y =
     collect (\<lambda>x. tile_char G frame iv
                (lower tw x, lower th y, upper tw w W x, upper th h H y)) (range0 w)"

text \<open>
  The pixel rectangle \<open>(x1, y1, x2, y2)\<close> that the loops crop for the output cell in
  column \<open>x\<close> of row \<open>y\<close> (line 129), and the pixels a rectangle holds: the left and
  upper bounds are inside, the right and lower bounds outside.
\<close>

definition tile_box ::
  "int \<Rightarrow> int \<Rightarrow> rat \<Rightarrow> rat \<Rightarrow> int \<Rightarrow> int \<Rightarrow> nat \<Rightarrow> nat \<Rightarrow> int \<times> int \<times> int \<times> int" where
  "tile_box W H tw th w h x y = (lower tw x, lower th y, upper tw w W x, upper th h H y)"


text \<open>A frame of one intensity, for the concrete runs below.\<close>

definition solid :: "int \<Rightarrow> int \<Rightarrow> 8 word \<Rightarrow> image" where
  "solid w h v = \<lparr> size_w = w, size_h = h, getpixel = (\<lambda>x y. v) \<rparr>"

section \<open>Saving and playback\<close>


text \<open>
  The files of \<open>OUTPUT_DIR\<close>, by name. \<open>open(path, 'w')\<close> starts from an empty file,
  \<open>open(path, 'a')\<close> from the present content (empty when the file does not exist);
  both create the file. The two modes are the only ones the program passes.
\<close>

type_synonym files = "pystr \<rightharpoonup> pystr"

datatype write_mode = Mode_w | Mode_a

definition open_file :: "files \<Rightarrow> pystr \<Rightarrow> write_mode \<Rightarrow> pystr" where
  "open_file fs path writeMode =
     (case writeMode of Mode_w \<Rightarrow> []
      | Mode_a \<Rightarrow> (case fs path of None \<Rightarrow> [] | Some content \<Rightarrow> content))"

definition SaveFrame :: "pystr list \<Rightarrow> pystr \<Rightarrow> int \<Rightarrow> write_mode \<Rightarrow> files \<Rightarrow> files" where
  "SaveFrame asciiImg filename frameNumber writeMode fs =
     (let path = filename @ lit ''.txt'';
          f = open_file fs path writeMode;
          f = f @ (lit ''Frame '' @ str_int frameNumber @ [10]);
          f = foldl (\<lambda>f line. f @ (line @ [10])) f asciiImg
      in fs(path \<mapsto> f))"

text \<open>
  The diagnostic of line 179, followed by \<open>exit(1)\<close>.
\<close>

definition FrameIndexOutOfRange :: "int \<Rightarrow> int \<Rightarrow> error" where
  "FrameIndexOutOfRange frameToPrint n_frames =
     SystemExit (lit ''Frame '' @ str_int frameToPrint @ lit '' is out of range. Total frames: ''
                 @ str_int n_frames)"

text \<open>
  The loop of lines 189 to 208 over the frames of the image, \<open>k\<close> being \<open>frame.tell()\<close>.
  Terminal output and pacing (\<open>print\<close>, the cursor sequence, \<open>time\<close>, \<open>sleep\<close>) are not
  part of the model: with \<open>SAVE_ENABLED\<close> off a frame is rendered and the files stay as
  they are. What was written before an exception stays written.
\<close>

fun play_frames ::
  "(image \<Rightarrow> error + pystr list) \<Rightarrow> bool \<Rightarrow> pystr \<Rightarrow> nat \<Rightarrow> image list \<Rightarrow> files
     \<Rightarrow> error option \<times> files" where
  "play_frames render SAVE_ENABLED videoName k [] fs = (None, fs)"
| "play_frames render SAVE_ENABLED videoName k (grayscale # rest) fs =
     (case render grayscale of Inl e \<Rightarrow> (Some e, fs)
      | Inr asciiImg \<Rightarrow>
          play_frames render SAVE_ENABLED videoName (k + 1) rest
            (if SAVE_ENABLED then SaveFrame asciiImg videoName (int k) Mode_a fs else fs))"

text \<open>
  \<open>ProcessGif\<close>. The image \<open>im\<close> is the list of its frames, each already converted
  to mode \<open>L\<close>; an image without a frame does not open. \<open>videoName\<close> is the name
  computed at line 170. The result is the exception or exit that ended the run, if any,
  and the files after it.
\<close>

definition ProcessGif ::
  "bool \<Rightarrow> pystr \<Rightarrow> image list \<Rightarrow> pystr \<Rightarrow> int \<Rightarrow> rat \<Rightarrow> int \<Rightarrow> bool \<Rightarrow> files
     \<Rightarrow> error option \<times> files" where
  "ProcessGif SAVE_ENABLED GRAYSCALE_CHARS im videoName width scale frameToPrint inverse' fs =
     (case im of [] \<Rightarrow> (Some SourceDecodeFailure, fs)
      | first # _ \<Rightarrow>
     (case GetFrameData first width scale of Inl e \<Rightarrow> (Some e, fs)
      | Inr (imgWidth, imgHeight, tileWidth, tileHeight, height) \<Rightarrow>
          if frameToPrint \<noteq> 0 then
            let frame = frameToPrint - 1
            in if frame < 0 \<or> frame \<ge> int (length im)
               then (Some (FrameIndexOutOfRange frameToPrint (int (length im))), fs)
               else (case ProcessFrame GRAYSCALE_CHARS (im ! nat frame) imgWidth imgHeight
                            tileWidth tileHeight width height inverse' of
                       Inl e \<Rightarrow> (Some e, fs)
                     | Inr asciiImg \<Rightarrow>
                         (None, if SAVE_ENABLED
                                then SaveFrame asciiImg videoName frame Mode_w fs else fs))
          else play_frames
                 (\<lambda>grayscale. ProcessFrame GRAYSCALE_CHARS grayscale imgWidth imgHeight
                                 tileWidth tileHeight width height inverse')
                 SAVE_ENABLED videoName 0 im fs))"

text \<open>
  The block of one frame in the output file, a marker line and the content lines, the
  blocks of consecutive frames numbered from \<open>k\<close>, and the content of a file, empty
  when it does not exist.
\<close>

definition frame_block :: "pystr list \<Rightarrow> int \<Rightarrow> pystr" where
  "frame_block asciiImg frameNumber =
     lit ''Frame '' @ str_int frameNumber @ [10] @ concat (map (\<lambda>line. line @ [10]) asciiImg)"

fun frame_blocks :: "nat \<Rightarrow> pystr list list \<Rightarrow> pystr" where
  "frame_blocks k [] = []"
| "frame_blocks k (asciiImg # rest) = frame_block asciiImg (int k) @ frame_blocks (Suc k) rest"

definition file_content :: "files \<Rightarrow> pystr \<Rightarrow> pystr" where
  "file_content fs path = (case fs path of None \<Rightarrow> [] | Some content \<Rightarrow> content)"

section \<open>Arithmetic of the model\<close>

lemma floor_numeral_quotient [simp]:
  "\<lfloor>(numeral a :: rat) / numeral b\<rfloor> = numeral a div numeral b"
  using floor_divide_of_int_eq [of "numeral a" "numeral b", where ?'a = rat] by simp

lemma floor_one_quotient [simp]:
  "\<lfloor>(1 :: rat) / numeral b\<rfloor> = 1 div numeral b"
  using floor_divide_of_int_eq [of 1 "numeral b", where ?'a = rat] by simp


section \<open>The tile sampler\<close>

lemma length_getdata: "length (getdata img) = nat (size_h img) * nat (size_w img)"
  by (simp add: getdata_def length_concat comp_def sum_list_triv)

lemma getdata_range: "p \<in> set (getdata img) \<Longrightarrow> 0 \<le> p \<and> p \<le> 255"
proof -
  assume "p \<in> set (getdata img)"
  then obtain w :: "8 word" where "p = uint w"
    by (auto simp: getdata_def)
  moreover have "uint w < 2 ^ 8"
    using uint_lt2p [of w] by simp
  ultimately show ?thesis by simp
qed

lemma sum_list_bounds:
  "\<forall>p \<in> set ps. 0 \<le> p \<and> p \<le> (c::int) \<Longrightarrow>
     0 \<le> sum_list ps \<and> sum_list ps \<le> c * int (length ps)"
proof (induction ps)
  case Nil
  then show ?case by simp
next
  case (Cons p ps)
  then have "0 \<le> sum_list ps \<and> sum_list ps \<le> c * int (length ps)" and "0 \<le> p" and "p \<le> c"
    by simp_all
  then show ?case by (simp add: algebra_simps)
qed

lemma GetAverageBrightness_value:
  assumes "0 < size_w tile" and "0 < size_h tile"
  shows "GetAverageBrightness tile
           = Inr (sum_list (getdata tile) div int (length (getdata tile)))"
    and "0 \<le> sum_list (getdata tile) div int (length (getdata tile))"
    and "sum_list (getdata tile) div int (length (getdata tile)) \<le> 255"
proof -
  let ?ps = "getdata tile"
  let ?n = "int (length ?ps)"
  have n: "0 < ?n"
    using assms by (simp add: length_getdata)
  have s: "0 \<le> sum_list ?ps \<and> sum_list ?ps \<le> 255 * ?n"
    by (rule sum_list_bounds) (simp add: getdata_range)
  show "0 \<le> sum_list ?ps div ?n"
    using s n by (simp add: pos_imp_zdiv_nonneg_iff)
  have "sum_list ?ps div ?n \<le> (255 * ?n) div ?n"
    using s n by (intro zdiv_mono1) auto
  then show "sum_list ?ps div ?n \<le> 255"
    using n by simp
  show "GetAverageBrightness tile = Inr (sum_list ?ps div ?n)"
    using n by (simp add: GetAverageBrightness_def py_floordiv_def Let_def)
qed

text \<open>
  C5. A tile with at least one pixel (positive width and height) has an average
  brightness: \<open>GetAverageBrightness\<close> returns the floor of the mean of its pixel
  intensities, the sum of the intensities divided by their number, and that value is an
  integer between 0 and 255.
\<close>

theorem GetAverageBrightness_mean:
  assumes "0 < size_w tile" and "0 < size_h tile"
  shows "\<exists>m. GetAverageBrightness tile = Inr m
           \<and> m = \<lfloor>(of_int (sum_list (getdata tile)) :: rat)
                    / of_int (int (length (getdata tile)))\<rfloor>
           \<and> 0 < length (getdata tile)
           \<and> 0 \<le> m \<and> m \<le> 255"
proof -
  have f: "\<lfloor>(of_int (sum_list (getdata tile)) :: rat) / of_int (int (length (getdata tile)))\<rfloor>
             = sum_list (getdata tile) div int (length (getdata tile))"
    by (rule floor_divide_of_int_eq)
  have n: "0 < length (getdata tile)"
    using assms by (simp add: length_getdata)
  show ?thesis
    unfolding f using GetAverageBrightness_value [OF assms] n by blast
qed

theorem GetAverageBrightness_mean_witness:
  "GetAverageBrightness \<lparr> size_w = 2, size_h = 1, getpixel = (\<lambda>x y. if x = 0 then 3 else 4) \<rparr>
     = Inr 3"
  using GetAverageBrightness_mean
          [of "\<lparr> size_w = 2, size_h = 1, getpixel = (\<lambda>x y. if x = 0 then 3 else 4) \<rparr>"]
  by (simp add: getdata_def upt_rec)

section \<open>The geometry resolver\<close>



section \<open>The loops of the renderer\<close>


lemma collect_Inl:
  "collect f xs = Inl e \<Longrightarrow> \<exists>x \<in> set xs. f x = Inl e"
  by (induction xs) (auto split: sum.splits)


lemma for_loop_columns:
  assumes "y < length aImg"
  shows "for_loop (column_body G frame W tw w iv y y1 y2) xs aImg =
           (case collect (\<lambda>x. tile_char G frame iv (lower tw x, y1, upper tw w W x, y2)) xs of
              Inl e \<Rightarrow> Inl e
            | Inr cs \<Rightarrow> Inr (aImg[y := aImg ! y @ cs]))"
  using assms
proof (induction xs arbitrary: aImg)
  case Nil
  then show ?case by simp
next
  case (Cons x xs)
  show ?case
  proof (cases "tile_char G frame iv (lower tw x, y1, upper tw w W x, y2)")
    case (Inl e)
    then show ?thesis by (simp add: column_body_def)
  next
    case (Inr c)
    have len: "y < length (aImg[y := aImg ! y @ [c]])"
      using Cons.prems by simp
    show ?thesis
      using Inr Cons.prems Cons.IH [OF len]
      by (simp add: column_body_def append_char_def split: sum.splits)
  qed
qed

lemma row_body_collect:
  assumes "length aImg = y"
  shows "row_body G frame W H tw th w h iv aImg y =
           (case render_row G frame W H tw th w h iv y of
              Inl e \<Rightarrow> Inl e | Inr cs \<Rightarrow> Inr (aImg @ [cs]))"
proof -
  have "y < length (aImg @ [[]])" using assms by simp
  moreover have "(aImg @ [[]])[y := (aImg @ [[]]) ! y @ cs] = aImg @ [cs]" for cs :: pystr
    using assms by auto
  ultimately show ?thesis
    by (simp add: row_body_def render_row_def Let_def for_loop_columns split: sum.splits)
qed

lemma for_loop_rows:
  assumes "length aImg = k"
  shows "for_loop (row_body G frame W H tw th w h iv) [k..<n] aImg =
           (case collect (render_row G frame W H tw th w h iv) [k..<n] of
              Inl e \<Rightarrow> Inl e | Inr rows \<Rightarrow> Inr (aImg @ rows))"
  using assms
proof (induction "n - k" arbitrary: k aImg)
  case 0
  then show ?case by simp
next
  case (Suc d)
  then have kn: "k < n" and d: "d = n - Suc k" by auto
  have upt: "[k..<n] = k # [Suc k..<n]" using kn by (simp add: upt_conv_Cons)
  show ?case
  proof (cases "render_row G frame W H tw th w h iv k")
    case (Inl e)
    then show ?thesis
      using Suc.prems by (simp add: upt row_body_collect)
  next
    case (Inr cs)
    have "length (aImg @ [cs]) = Suc k" using Suc.prems by simp
    from Suc.hyps(1) [OF d this] show ?thesis
      using Inr Suc.prems by (simp add: upt row_body_collect split: sum.splits)
  qed
qed

lemma ProcessFrame_collect:
  "ProcessFrame G frame W H tw th w h iv =
     collect (render_row G frame W H tw th w h iv) (range0 h)"
  using for_loop_rows [of "[]" 0 G frame W H tw th w h iv "nat h"]
  by (simp add: ProcessFrame_def range0_def split: sum.splits)


section \<open>Tile bounds\<close>












section \<open>Brightness to glyph\<close>












lemma tile_char_empty:
  assumes "y1 = y2" and "x1 \<le> x2"
  shows "tile_char G frame iv (x1, y1, x2, y2) = Inl ZeroDivisionError"
  using assms
  by (simp add: tile_char_def crop_def GetAverageBrightness_def py_floordiv_def getdata_def)

section \<open>The rendered frame\<close>




section \<open>Coverage\<close>



text \<open>
  C6. A geometry that passes the check of \<open>GetFrameData\<close> can have a tile of no pixel:
  for a 1 by 1 image, output width 1 and scale 2 the tile height is 1/2, the tile of
  the first of the two rows is \<open>(0, 0, 1, 0)\<close>, and the sampler divides by zero.
\<close>

theorem zero_height_tile:
  "GetFrameData (solid 1 1 0) 1 2 = Inr (1, 1, 1, 1 / 2, 2)
   \<and> tile_box 1 1 1 (1 / 2) 1 2 0 0 = (0, 0, 1, 0)
   \<and> ProcessFrame (lit ''@%#*+=-:. '') (solid 1 1 0) 1 1 1 (1 / 2) 1 2 False
       = Inl ZeroDivisionError"
  by (simp add: GetFrameData_def py_truediv_def py_int_def solid_def TooSmall_def
        ProcessFrame_collect render_row_def range0_def lower_def upper_def tile_box_def
        tile_char_empty upt_rec)

section \<open>The glyph of a cell\<close>



section \<open>Saving frames and playing the image\<close>

lemma foldl_lines:
  "foldl (\<lambda>f line. f @ (line @ [10])) f0 asciiImg
     = f0 @ concat (map (\<lambda>line. line @ [10 :: nat]) asciiImg)"
  by (induction asciiImg arbitrary: f0) simp_all

lemma SaveFrame_content:
  "SaveFrame asciiImg filename k m fs =
     fs(filename @ lit ''.txt'' \<mapsto>
          open_file fs (filename @ lit ''.txt'') m @ frame_block asciiImg k)"
  by (simp add: SaveFrame_def frame_block_def Let_def foldl_lines)

lemma open_file_a: "open_file fs path Mode_a = file_content fs path"
  by (simp add: open_file_def file_content_def)

lemma open_file_w: "open_file fs path Mode_w = []"
  by (simp add: open_file_def)

lemma play_frames_saved:
  assumes "collect render frames = Inr imgs" and "frames \<noteq> []"
  shows "play_frames render True videoName k frames fs =
           (None, fs(videoName @ lit ''.txt'' \<mapsto>
                       file_content fs (videoName @ lit ''.txt'') @ frame_blocks k imgs))"
  using assms
proof (induction frames arbitrary: k fs imgs)
  case Nil
  then show ?case by simp
next
  case (Cons fr rest)
  let ?p = "videoName @ lit ''.txt''"
  from Cons.prems(1) obtain img imgs' where
    fr: "render fr = Inr img" and rest: "collect render rest = Inr imgs'" and
    imgs: "imgs = img # imgs'"
    by (auto split: sum.splits)
  define fs' where "fs' = SaveFrame img videoName (int k) Mode_a fs"
  have fs': "fs' = fs(?p \<mapsto> file_content fs ?p @ frame_block img (int k))"
    by (simp add: fs'_def SaveFrame_content open_file_a)
  have step: "play_frames render True videoName k (fr # rest) fs =
                play_frames render True videoName (Suc k) rest fs'"
    using fr by (simp add: fs'_def)
  show ?case
  proof (cases "rest = []")
    case True
    then have "imgs = [img]" using rest imgs by simp
    then have "frame_blocks k imgs = frame_block img (int k)" by simp
    moreover have "play_frames render True videoName (Suc k) rest fs' = (None, fs')"
      using True by simp
    ultimately show ?thesis
      by (simp only: step fs')
  next
    case False
    have content: "file_content fs' ?p = file_content fs ?p @ frame_block img (int k)"
      by (simp add: fs' file_content_def)
    have "play_frames render True videoName (Suc k) rest fs' =
            (None, fs'(?p \<mapsto> file_content fs' ?p @ frame_blocks (Suc k) imgs'))"
      by (rule Cons.IH [OF rest False])
    also have "fs'(?p \<mapsto> file_content fs' ?p @ frame_blocks (Suc k) imgs')
                 = fs(?p \<mapsto> file_content fs ?p @ frame_blocks k imgs)"
      unfolding content imgs by (simp add: fs')
    finally show ?thesis
      by (simp only: step)
  qed
qed


lemma ProcessGif_continuous:
  assumes "GetFrameData first width scale = Inr (W, H, tw, th, h)"
  shows "ProcessGif S G (first # rest) videoName width scale 0 iv fs =
           play_frames (\<lambda>grayscale. ProcessFrame G grayscale W H tw th width h iv)
             S videoName 0 (first # rest) fs"
  using assms by (simp add: ProcessGif_def)

lemma ProcessGif_out_of_range:
  assumes "GetFrameData first width scale = Inr (W, H, tw, th, h)"
    and "i < 0 \<or> int (length (first # rest)) < i"
  shows "ProcessGif S G (first # rest) videoName width scale i iv fs =
           (Some (FrameIndexOutOfRange i (int (length (first # rest)))), fs)"
  using assms by (auto simp: ProcessGif_def Let_def)

lemma ProcessGif_single:
  assumes "GetFrameData first width scale = Inr (W, H, tw, th, h)"
    and "1 \<le> k" and "k \<le> int (length (first # rest))"
    and "ProcessFrame G ((first # rest) ! nat (k - 1)) W H tw th width h iv = Inr asciiImg"
  shows "ProcessGif True G (first # rest) videoName width scale k iv fs =
           (None, fs(videoName @ lit ''.txt'' \<mapsto> frame_block asciiImg (k - 1)))"
  using assms by (simp add: ProcessGif_def Let_def SaveFrame_content open_file_w)

lemma str_int_digit: "str_int 0 = lit ''0''" "str_int 1 = lit ''1''" "str_int 3 = lit ''3''"
  by (simp_all add: str_int_def str_nat.simps lit_def)

lemma lit_append: "lit a @ lit b = lit (a @ b)"
  by (simp add: lit_def)


lemma one_pixel_geometry: "GetFrameData (solid 1 1 v) 1 1 = Inr (1, 1, 1, 1, 1)"
  by (simp add: GetFrameData_def py_truediv_def py_int_def solid_def TooSmall_def)

lemma one_pixel_tile:
  "tile_char G (solid 1 1 v) iv (0, 0, 1, 1) = asciiChar G iv (uint v)"
  by (simp add: tile_char_def crop_def solid_def GetAverageBrightness_def getdata_def
        py_floordiv_def)

lemma one_pixel_render:
  "ProcessFrame (lit ''@%#*+=-:. '') (solid 1 1 0) 1 1 1 1 1 1 False = Inr [lit ''@'']"
  "ProcessFrame (lit ''@%#*+=-:. '') (solid 1 1 255) 1 1 1 1 1 1 False = Inr [lit '' '']"
  by (simp_all add: ProcessFrame_collect render_row_def range0_def lower_def upper_def
        py_int_def one_pixel_tile asciiChar_def py_round_def py_getitem_def lit_def)




lemma lit_append_more: "lit a @ lit b @ r = lit (a @ b) @ r"
  by (simp add: lit_def)

text \<open>
  C8, as the claim states it: every requested index \<open>i \<le> 0\<close> would end the run with
  the out-of-range diagnostic. The index 0 does not: it is the value that asks for all
  frames, and the run of a one-frame image with index 0 ends without an error.
\<close>

theorem frame_index_zero_accepted:
  "fst (ProcessGif False (lit ''@%#*+=-:. '') [solid 1 1 0] (lit ''v'') 1 1 0 False Map.empty)
     = None
   \<and> fst (ProcessGif False (lit ''@%#*+=-:. '') [solid 1 1 0] (lit ''v'') 1 1 0 False Map.empty)
     \<noteq> Some (FrameIndexOutOfRange 0 1)"
  by (simp add: ProcessGif_continuous [OF one_pixel_geometry] one_pixel_render)

text \<open>
  C8, amended. Once the geometry is accepted, a requested frame index that is negative or
  greater than the number of frames ends the run with exit status 1 before anything is
  rendered or written, and the diagnostic printed states the requested index and the
  number of frames: \<open>Frame i is out of range. Total frames: n\<close>. (Index 0 is not an
  error: it selects all frames.)
\<close>

theorem frame_index_out_of_range:
  assumes "GetFrameData first width scale = Inr (W, H, tw, th, h)"
    and "i < 0 \<or> int (length (first # rest)) < i"
  shows "ProcessGif S G (first # rest) videoName width scale i iv fs =
           (Some (SystemExit (lit ''Frame '' @ str_int i
                    @ lit '' is out of range. Total frames: ''
                    @ str_int (int (length (first # rest))))), fs)"
  using ProcessGif_out_of_range [OF assms] by (simp add: FrameIndexOutOfRange_def)

theorem frame_index_out_of_range_witness:
  "ProcessGif True (lit ''@%#*+=-:. '') [solid 1 1 0] (lit ''v'') 1 1 3 False Map.empty
     = (Some (SystemExit (lit ''Frame 3 is out of range. Total frames: 1'')), Map.empty)"
proof -
  have "(3::int) < 0 \<or> int (length [solid 1 1 0]) < 3" by simp
  from frame_index_out_of_range [OF one_pixel_geometry this] show ?thesis
    by (simp add: str_int_digit lit_append)
qed



text \<open>
  C10. The marker line written to the file carries the zero-based index of the frame.
  Requesting the frame of 1-based index \<open>k\<close> writes a file that starts with the line
  \<open>Frame k-1\<close>, followed by the lines of the frame; in continuous mode the first block
  appended starts with the line \<open>Frame 0\<close>, and the blocks after it are numbered from 1.
\<close>

theorem frame_marker_zero_based:
  assumes "GetFrameData first width scale = Inr (W, H, tw, th, h)"
  shows "(\<forall>k asciiImg. 1 \<le> k \<and> k \<le> int (length (first # rest))
            \<and> ProcessFrame G ((first # rest) ! nat (k - 1)) W H tw th width h iv = Inr asciiImg
            \<longrightarrow> ProcessGif True G (first # rest) videoName width scale k iv fs =
                 (None, fs(videoName @ lit ''.txt'' \<mapsto>
                    lit ''Frame '' @ str_int (k - 1) @ [10]
                      @ concat (map (\<lambda>line. line @ [10]) asciiImg))))
       \<and> (\<forall>imgs. collect (\<lambda>grayscale. ProcessFrame G grayscale W H tw th width h iv)
                     (first # rest) = Inr imgs
            \<longrightarrow> ProcessGif True G (first # rest) videoName width scale 0 iv fs =
                 (None, fs(videoName @ lit ''.txt'' \<mapsto>
                    file_content fs (videoName @ lit ''.txt'')
                      @ lit ''Frame 0'' @ [10] @ concat (map (\<lambda>line. line @ [10]) (hd imgs))
                      @ frame_blocks 1 (tl imgs))))"
proof (intro conjI allI impI)
  fix k asciiImg
  assume "1 \<le> k \<and> k \<le> int (length (first # rest))
            \<and> ProcessFrame G ((first # rest) ! nat (k - 1)) W H tw th width h iv = Inr asciiImg"
  then have k: "1 \<le> k" "k \<le> int (length (first # rest))"
    and r: "ProcessFrame G ((first # rest) ! nat (k - 1)) W H tw th width h iv = Inr asciiImg"
    by blast+
  show "ProcessGif True G (first # rest) videoName width scale k iv fs =
          (None, fs(videoName @ lit ''.txt'' \<mapsto>
             lit ''Frame '' @ str_int (k - 1) @ [10]
               @ concat (map (\<lambda>line. line @ [10]) asciiImg)))"
    unfolding ProcessGif_single [OF assms k r] frame_block_def ..
next
  fix imgs
  assume c: "collect (\<lambda>grayscale. ProcessFrame G grayscale W H tw th width h iv)
               (first # rest) = Inr imgs"
  then obtain img imgs' where imgs: "imgs = img # imgs'"
    by (auto split: sum.splits)
  have blocks: "frame_blocks 0 imgs =
                  lit ''Frame 0'' @ [10] @ concat (map (\<lambda>line. line @ [10]) (hd imgs))
                    @ frame_blocks 1 (tl imgs)"
    by (simp add: imgs frame_block_def str_int_digit lit_append_more)
  have "ProcessGif True G (first # rest) videoName width scale 0 iv fs =
          (None, fs(videoName @ lit ''.txt'' \<mapsto>
                      file_content fs (videoName @ lit ''.txt'') @ frame_blocks 0 imgs))"
    unfolding ProcessGif_continuous [OF assms]
    by (rule play_frames_saved [OF c]) simp
  then show "ProcessGif True G (first # rest) videoName width scale 0 iv fs =
          (None, fs(videoName @ lit ''.txt'' \<mapsto>
             file_content fs (videoName @ lit ''.txt'')
               @ lit ''Frame 0'' @ [10] @ concat (map (\<lambda>line. line @ [10]) (hd imgs))
               @ frame_blocks 1 (tl imgs)))"
    by (simp only: blocks)
qed

theorem frame_marker_zero_based_witness:
  "ProcessGif True (lit ''@%#*+=-:. '') [solid 1 1 0, solid 1 1 255] (lit ''v'') 1 1 2 False
     [lit ''v.txt'' \<mapsto> lit ''old'']
   = (None, [lit ''v.txt'' \<mapsto> lit ''Frame 1'' @ [10] @ lit '' '' @ [10]])"
proof -
  have "1 \<le> (2::int) \<and> 2 \<le> int (length [solid 1 1 0, solid 1 1 255])
          \<and> ProcessFrame (lit ''@%#*+=-:. '') ([solid 1 1 0, solid 1 1 255] ! nat (2 - 1))
              1 1 1 1 1 1 False = Inr [lit '' '']"
    by (simp add: one_pixel_render)
  with frame_marker_zero_based [OF one_pixel_geometry [of 0],
         where G = "lit ''@%#*+=-:. ''" and rest = "[solid 1 1 255]" and iv = False
           and videoName = "lit ''v''" and fs = "[lit ''v.txt'' \<mapsto> lit ''old'']"]
  have "ProcessGif True (lit ''@%#*+=-:. '') [solid 1 1 0, solid 1 1 255] (lit ''v'') 1 1 2 False
          [lit ''v.txt'' \<mapsto> lit ''old'']
        = (None, [lit ''v.txt'' \<mapsto> lit ''old''](lit ''v'' @ lit ''.txt'' \<mapsto>
             lit ''Frame '' @ str_int (2 - 1) @ [10] @ concat (map (\<lambda>line. line @ [10]) [lit '' ''])))"
    by blast
  then show ?thesis
    by (simp add: str_int_digit lit_append lit_append_more)
qed

end
